theory Spec2Isabelle
  imports Main "HOL-Library.Word"
begin

section \<open>The SIP stack facade: \<^verbatim>\<open>SipStack.cxx\<close>\<close>

text \<open>
  \<^verbatim>\<open>SipStack\<close> owns the domain-alias set \<^verbatim>\<open>mDomains\<close>, the transport selector and
  the two queues that connect the transaction user (TU) to the transaction state
  machine: \<^verbatim>\<open>mStateMacFifo\<close> (TU to stack) and \<^verbatim>\<open>mTUFifo\<close> (stack to TU).
  The queues hold pointers to heap objects, and \<^verbatim>\<open>send\<close> allocates, so the heap
  is an explicit store: a map from addresses to objects with a bump allocator.
\<close>

type_synonym Data = string
type_synonym Uri = string
type_synonym ptr = nat

datatype TransportType = UDP | TCP | TLS

text \<open>
  The class \<^verbatim>\<open>SipMessage\<close> is declared outside this file. Its model keeps what
  \<^verbatim>\<open>SipStack.cxx\<close> reads and writes: the message proper (what \<^verbatim>\<open>brief()\<close>
  summarises), the flag set by \<^verbatim>\<open>setFromTU()\<close> and the target set by
  \<^verbatim>\<open>setTarget(uri)\<close>.
\<close>

record SipMessage =
  contents :: Data
  fromTU :: bool
  target :: "Uri option"

text \<open>
  \<^verbatim>\<open>Message\<close> is the base class of everything a queue can hold; \<^verbatim>\<open>SipMessage\<close>
  is one subclass, told apart at run time by \<^verbatim>\<open>dynamic_cast\<close>.
\<close>

datatype Message = IsSipMessage SipMessage | OtherMessage Data

record Heap =
  objs :: "ptr \<rightharpoonup> Message"
  brk :: ptr

definition heap_ok :: "Heap \<Rightarrow> bool" where
  "heap_ok h = (\<forall>a. objs h a \<noteq> None \<longrightarrow> a < brk h)"

definition new_obj :: "Message \<Rightarrow> Heap \<Rightarrow> ptr \<times> Heap" where
  \<comment> \<open>\<^verbatim>\<open>new T(...)\<close>: the object is stored at the next unused address.\<close>
  "new_obj m h = (brk h, h\<lparr>objs := (objs h)(brk h \<mapsto> m), brk := Suc (brk h)\<rparr>)"

definition setFromTU :: "ptr \<Rightarrow> Heap \<Rightarrow> Heap" where
  "setFromTU p h =
     (case objs h p of
        Some (IsSipMessage m) \<Rightarrow> h\<lparr>objs := (objs h)(p \<mapsto> IsSipMessage (m\<lparr>fromTU := True\<rparr>))\<rparr>
      | _ \<Rightarrow> h)"

definition setTarget :: "ptr \<Rightarrow> Uri \<Rightarrow> Heap \<Rightarrow> Heap" where
  "setTarget p uri h =
     (case objs h p of
        Some (IsSipMessage m) \<Rightarrow> h\<lparr>objs := (objs h)(p \<mapsto> IsSipMessage (m\<lparr>target := Some uri\<rparr>))\<rparr>
      | _ \<Rightarrow> h)"

definition dynamic_cast_SipMessage :: "Heap \<Rightarrow> ptr \<Rightarrow> ptr option" where
  \<comment> \<open>\<^verbatim>\<open>dynamic_cast<SipMessage*>(p)\<close>: the pointer itself, or null (\<open>None\<close>).\<close>
  "dynamic_cast_SipMessage h p =
     (case objs h p of Some (IsSipMessage m) \<Rightarrow> Some p | _ \<Rightarrow> None)"

subsection \<open>The queues\<close>

text \<open>
  Modelled from the spec: the class \<^verbatim>\<open>Fifo\<close> (\<^verbatim>\<open>sip2/util/Fifo.hxx\<close>) is not
  among the sources. The spec (section 5) describes the queues as first-in first-out:
  messages are observed in post order. \<^verbatim>\<open>add\<close> appends, \<^verbatim>\<open>messageAvailable\<close>
  tests for a queued element, \<^verbatim>\<open>getNext\<close> takes the oldest one and waits while there
  is none; with nobody else to post, waiting on an empty queue never returns, which is
  the value \<open>None\<close>.
\<close>

type_synonym Fifo = "ptr list"

definition Fifo_add :: "Fifo \<Rightarrow> ptr \<Rightarrow> Fifo" where
  "Fifo_add f p = f @ [p]"

definition messageAvailable :: "Fifo \<Rightarrow> bool" where
  "messageAvailable f = (f \<noteq> [])"

definition getNext :: "Fifo \<Rightarrow> (ptr \<times> Fifo) option" where
  "getNext f = (case f of [] \<Rightarrow> None | p # rest \<Rightarrow> Some (p, rest))"

subsection \<open>The stack object and its methods\<close>

text \<open>
  The transport selector is declared outside this file; \<^verbatim>\<open>addTransport\<close> hands it
  the four arguments, and the model records them in order.
\<close>

record SipStack =
  mTransportSelector :: "(TransportType \<times> int \<times> Data \<times> Data) list"
  mDomains :: "Data set"
  mStateMacFifo :: Fifo
  mTUFifo :: Fifo

definition SipStack_new :: SipStack where
  \<comment> \<open>The constructor: no transport, no alias, empty queues.\<close>
  "SipStack_new =
     \<lparr>mTransportSelector = [], mDomains = {}, mStateMacFifo = [], mTUFifo = []\<rparr>"

datatype fault = AssertionFailed | BadReference

definition addAlias :: "Data \<Rightarrow> SipStack \<Rightarrow> SipStack" where
  "addAlias domain s = s\<lparr>mDomains := insert domain (mDomains s)\<rparr>"

definition addTransport :: "TransportType \<Rightarrow> int \<Rightarrow> Data \<Rightarrow> Data \<Rightarrow> SipStack \<Rightarrow> SipStack" where
  "addTransport protocol port hostName nic s =
     (let s1 = s\<lparr>mTransportSelector := mTransportSelector s @ [(protocol, port, hostName, nic)]\<rparr>
      in if hostName \<noteq> [] then addAlias hostName s1 else s1)"

definition isMyDomain :: "SipStack \<Rightarrow> Data \<Rightarrow> bool" where
  "isMyDomain s domain = (card (mDomains s \<inter> {domain}) \<noteq> 0)"

text \<open>
  \<^verbatim>\<open>send\<close> and \<^verbatim>\<open>sendTo\<close> take the caller's message by reference: \<open>msg\<close> is its
  address. A reference always names a \<^verbatim>\<open>SipMessage\<close>; an address that does not is
  outside what the source can be called with, and is the fault \<open>BadReference\<close>. The
  log line written first reads the message and changes nothing.
\<close>

definition send :: "ptr \<Rightarrow> Heap \<Rightarrow> SipStack \<Rightarrow> fault + Heap \<times> SipStack" where
  "send msg h s =
     (case objs h msg of
        Some (IsSipMessage m) \<Rightarrow>
          (let (toSend, h1) = new_obj (IsSipMessage m) h;
               h2 = setFromTU toSend h1
           in Inr (h2, s\<lparr>mStateMacFifo := Fifo_add (mStateMacFifo s) toSend\<rparr>))
      | _ \<Rightarrow> Inl BadReference)"

definition sendTo :: "ptr \<Rightarrow> Uri \<Rightarrow> Heap \<Rightarrow> SipStack \<Rightarrow> fault + Heap \<times> SipStack" where
  "sendTo msg uri h s =
     (case objs h msg of
        Some (IsSipMessage m) \<Rightarrow>
          (let (toSend, h1) = new_obj (IsSipMessage m) h;
               h2 = setTarget toSend uri h1;
               h3 = setFromTU toSend h2
           in Inr (h3, s\<lparr>mStateMacFifo := Fifo_add (mStateMacFifo s) toSend\<rparr>))
      | _ \<Rightarrow> Inl BadReference)"

text \<open>
  \<^verbatim>\<open>receive\<close> returns a pointer that may be null (\<open>None\<close>) and the stack as it
  leaves it. The outer \<open>option\<close> is \<open>None\<close> when the call never returns; the
  \<^verbatim>\<open>assert\<close> on the result of the cast is compiled in, and its failure is the fault
  \<open>AssertionFailed\<close>.
\<close>

definition receive :: "Heap \<Rightarrow> SipStack \<Rightarrow> (fault + ptr option \<times> SipStack) option" where
  "receive h s =
     (if messageAvailable (mTUFifo s) then
        (case getNext (mTUFifo s) of
           None \<Rightarrow> None
         | Some (tmpMsg, rest) \<Rightarrow>
             (case dynamic_cast_SipMessage h tmpMsg of
                None \<Rightarrow> Some (Inl AssertionFailed)
              | Some sipMsg \<Rightarrow> Some (Inr (Some sipMsg, s\<lparr>mTUFifo := rest\<rparr>))))
      else Some (Inr (None, s)))"

subsection \<open>Histories of calls\<close>

text \<open>
  A history is the list of calls made on a stack since its construction.
  \<^verbatim>\<open>process\<close> hands over to the executive, which is declared outside this file:
  it is a parameter \<open>exe\<close> that may change the heap and both queues in any way.
  A history that hits a fault, or a call that does not return, has no final state.
\<close>

datatype call =
    AddTransport TransportType int Data Data
  | AddAlias Data
  | Send ptr
  | SendTo ptr Uri
  | Receive
  | Process

type_synonym executive = "Heap \<times> Fifo \<times> Fifo \<Rightarrow> Heap \<times> Fifo \<times> Fifo"

definition process :: "executive \<Rightarrow> Heap \<Rightarrow> SipStack \<Rightarrow> Heap \<times> SipStack" where
  "process exe h s =
     (let (h', sm, tu) = exe (h, mStateMacFifo s, mTUFifo s)
      in (h', s\<lparr>mStateMacFifo := sm, mTUFifo := tu\<rparr>))"

fun exec :: "executive \<Rightarrow> call \<Rightarrow> Heap \<times> SipStack \<Rightarrow> (Heap \<times> SipStack) option" where
  "exec exe (AddTransport protocol port hostName nic) (h, s) =
     Some (h, addTransport protocol port hostName nic s)"
| "exec exe (AddAlias domain) (h, s) = Some (h, addAlias domain s)"
| "exec exe (Send msg) (h, s) =
     (case send msg h s of Inl e \<Rightarrow> None | Inr hs \<Rightarrow> Some hs)"
| "exec exe (SendTo msg uri) (h, s) =
     (case sendTo msg uri h s of Inl e \<Rightarrow> None | Inr hs \<Rightarrow> Some hs)"
| "exec exe Receive (h, s) =
     (case receive h s of Some (Inr (p, s')) \<Rightarrow> Some (h, s') | _ \<Rightarrow> None)"
| "exec exe Process (h, s) = Some (process exe h s)"

fun run :: "executive \<Rightarrow> call list \<Rightarrow> Heap \<times> SipStack \<Rightarrow> (Heap \<times> SipStack) option" where
  "run exe [] hs = Some hs"
| "run exe (c # cs) hs = (case exec exe c hs of None \<Rightarrow> None | Some hs' \<Rightarrow> run exe cs hs')"

fun adds_alias :: "Data \<Rightarrow> call \<Rightarrow> bool" where
  "adds_alias d (AddAlias domain) = (domain = d)"
| "adds_alias d (AddTransport protocol port hostName nic) = (hostName = d \<and> d \<noteq> [])"
| "adds_alias d c = False"

section \<open>The conversation manager: \<^verbatim>\<open>ConversationManager.hxx\<close>\<close>

text \<open>
  The header declares the manager's interface and its two registries,
  \<^verbatim>\<open>mConversations\<close> and \<^verbatim>\<open>mParticipants\<close>, each a map from a handle to an
  object, with one counter per registry for minting handles. The two enumerations are
  the header's own.
\<close>

type_synonym ConversationHandle = "64 word"
type_synonym ParticipantHandle = "64 word"
type_synonym NameAddr = string

datatype ParticipantForkSelectMode = ForkSelectAutomatic | ForkSelectManual | ForkSelectAutomaticEx

datatype AutoHoldMode = AutoHoldDisabled | AutoHoldEnabled | AutoHoldBroadcastOnly

text \<open>
  Modelled from the spec: the classes \<^verbatim>\<open>Conversation\<close> and \<^verbatim>\<open>Participant\<close> are only
  forward-declared in the header. The spec (section 3) gives a conversation an ordered
  set of participant handles and an \<^verbatim>\<open>AutoHoldMode\<close>, and a participant one of three
  variants (local, remote, media resource) and a membership set of conversations.
  A remote participant records the address it was created for and its fork-select
  mode. The state of its INVITE session is left out: what sections 3, 4.5 and 8 say
  of conversations and participants does not depend on it.
\<close>

datatype ParticipantKind =
    Local
  | Remote NameAddr ParticipantForkSelectMode
  | MediaResource Uri

record Conversation =
  participants :: "ParticipantHandle list"
  autoHoldMode :: AutoHoldMode

record Participant =
  kind :: ParticipantKind
  conversations :: "ConversationHandle set"

text \<open>The SIP requests the manager causes to be sent, each for one participant's call leg.\<close>

datatype SipRequest =
    INVITE ParticipantHandle NameAddr
  | BYE ParticipantHandle

fun about :: "SipRequest \<Rightarrow> ParticipantHandle" where
  "about (INVITE partHandle destination) = partHandle"
| "about (BYE partHandle) = partHandle"

text \<open>
  The manager's state: the two registries and the two counters of the header, and the
  requests sent so far, oldest first. The header's other members (the user agent, the
  shutdown flag, the mutexes, the media cache and the bridge mixer) play no part in
  what follows and are left out.
\<close>

record ConversationManager =
  mConversations :: "ConversationHandle \<rightharpoonup> Conversation"
  mCurrentConversationHandle :: ConversationHandle
  mParticipants :: "ParticipantHandle \<rightharpoonup> Participant"
  mCurrentParticipantHandle :: ParticipantHandle
  sent :: "SipRequest list"

datatype QueryError = NotFound

definition ConversationManager_new :: ConversationManager where
  \<comment> \<open>Modelled from the spec: the constructor's body is not among the sources; the
      registries start empty and nothing has been sent. Handles are minted from 1 on.\<close>
  "ConversationManager_new =
     \<lparr>mConversations = Map.empty, mCurrentConversationHandle = 1,
      mParticipants = Map.empty, mCurrentParticipantHandle = 1, sent = []\<rparr>"

definition getNewConversationHandle :: "ConversationManager \<Rightarrow> ConversationHandle \<times> ConversationManager" where
  \<comment> \<open>Modelled from the spec: the body is not among the sources; section 4.5 mints
      handles from a monotonically increasing counter.\<close>
  "getNewConversationHandle s =
     (mCurrentConversationHandle s, s\<lparr>mCurrentConversationHandle := mCurrentConversationHandle s + 1\<rparr>)"

definition getNewParticipantHandle :: "ConversationManager \<Rightarrow> ParticipantHandle \<times> ConversationManager" where
  \<comment> \<open>Modelled from the spec: the body is not among the sources; section 4.5 mints
      handles from a monotonically increasing counter.\<close>
  "getNewParticipantHandle s =
     (mCurrentParticipantHandle s, s\<lparr>mCurrentParticipantHandle := mCurrentParticipantHandle s + 1\<rparr>)"

definition getConversation :: "ConversationManager \<Rightarrow> ConversationHandle \<Rightarrow> QueryError + Conversation" where
  \<comment> \<open>Modelled from the spec: the body is not among the sources; section 8 has a query
      for a handle that is not registered return NotFound.\<close>
  "getConversation s convHandle =
     (case mConversations s convHandle of None \<Rightarrow> Inl NotFound | Some c \<Rightarrow> Inr c)"

definition membership :: "ConversationManager \<Rightarrow> ConversationHandle \<Rightarrow> ParticipantHandle set" where
  \<comment> \<open>The members of a conversation; a conversation that is not registered has none.\<close>
  "membership s convHandle =
     (case getConversation s convHandle of Inl e \<Rightarrow> {} | Inr c \<Rightarrow> set (participants c))"

definition createConversation :: "AutoHoldMode \<Rightarrow> ConversationManager \<Rightarrow> ConversationHandle \<times> ConversationManager" where
  \<comment> \<open>Modelled from the spec: the body is not among the sources; the header's comment
      has it create a new empty conversation and return its handle.\<close>
  "createConversation mode s =
     (let (h, s1) = getNewConversationHandle s
      in (h, s1\<lparr>mConversations := (mConversations s1)(h \<mapsto> \<lparr>participants = [], autoHoldMode = mode\<rparr>)\<rparr>))"

definition addMember :: "ConversationHandle \<Rightarrow> ParticipantHandle \<Rightarrow> ConversationManager \<Rightarrow> ConversationManager" where
  \<comment> \<open>Modelled from the spec: the member list of section 3 is an ordered set, so a
      handle joins at the end unless it is a member already.\<close>
  "addMember convHandle partHandle s =
     (case mConversations s convHandle of
        None \<Rightarrow> s
      | Some c \<Rightarrow>
          s\<lparr>mConversations := (mConversations s)(convHandle \<mapsto>
               c\<lparr>participants := (if partHandle \<in> set (participants c) then participants c
                                    else participants c @ [partHandle])\<rparr>)\<rparr>)"

definition dropMember :: "ConversationHandle \<Rightarrow> ParticipantHandle \<Rightarrow> ConversationManager \<Rightarrow> ConversationManager" where
  \<comment> \<open>Modelled from the spec: the counterpart of \<open>addMember\<close> on the same ordered set.\<close>
  "dropMember convHandle partHandle s =
     (case mConversations s convHandle of
        None \<Rightarrow> s
      | Some c \<Rightarrow>
          s\<lparr>mConversations := (mConversations s)(convHandle \<mapsto>
               c\<lparr>participants := removeAll partHandle (participants c)\<rparr>)\<rparr>)"

definition createRemoteParticipant ::
  "ConversationHandle \<Rightarrow> NameAddr \<Rightarrow> ParticipantForkSelectMode \<Rightarrow> ConversationManager
     \<Rightarrow> ParticipantHandle \<times> ConversationManager" where
  \<comment> \<open>Modelled from the spec: the body is not among the sources; section 4.5 has it
      return a new participant handle and schedule an outbound INVITE, the participant
      being created in the conversation named.\<close>
  "createRemoteParticipant convHandle destination forkSelectMode s =
     (let (h, s1) = getNewParticipantHandle s
      in case mConversations s1 convHandle of
           None \<Rightarrow> (h, s1)
         | Some c \<Rightarrow>
             (h, addMember convHandle h
                   (s1\<lparr>mParticipants := (mParticipants s1)(h \<mapsto>
                          \<lparr>kind = Remote destination forkSelectMode, conversations = {convHandle}\<rparr>),
                        sent := sent s1 @ [INVITE h destination]\<rparr>)))"

definition createMediaResourceParticipant ::
  "ConversationHandle \<Rightarrow> Uri \<Rightarrow> ConversationManager \<Rightarrow> ParticipantHandle \<times> ConversationManager" where
  \<comment> \<open>Modelled from the spec: the body is not among the sources; the header's comment
      has it create a media participant in the conversation named.\<close>
  "createMediaResourceParticipant convHandle mediaUrl s =
     (let (h, s1) = getNewParticipantHandle s
      in case mConversations s1 convHandle of
           None \<Rightarrow> (h, s1)
         | Some c \<Rightarrow>
             (h, addMember convHandle h
                   (s1\<lparr>mParticipants := (mParticipants s1)(h \<mapsto>
                          \<lparr>kind = MediaResource mediaUrl, conversations = {convHandle}\<rparr>)\<rparr>)))"

definition createLocalParticipant :: "ConversationManager \<Rightarrow> ParticipantHandle \<times> ConversationManager" where
  \<comment> \<open>Modelled from the spec: the body is not among the sources; the header's comment
      has the local participant created on its own and added to conversations later.\<close>
  "createLocalParticipant s =
     (let (h, s1) = getNewParticipantHandle s
      in (h, s1\<lparr>mParticipants := (mParticipants s1)(h \<mapsto> \<lparr>kind = Local, conversations = {}\<rparr>)\<rparr>))"

definition addParticipant :: "ConversationHandle \<Rightarrow> ParticipantHandle \<Rightarrow> ConversationManager \<Rightarrow> ConversationManager" where
  \<comment> \<open>Modelled from the spec: the body is not among the sources; the header's comment
      has it add the participant named to the conversation named.\<close>
  "addParticipant convHandle partHandle s =
     (case (mConversations s convHandle, mParticipants s partHandle) of
        (Some c, Some p) \<Rightarrow>
          addMember convHandle partHandle
            (s\<lparr>mParticipants := (mParticipants s)(partHandle \<mapsto>
                  p\<lparr>conversations := insert convHandle (conversations p)\<rparr>)\<rparr>)
      | _ \<Rightarrow> s)"

fun endRequests :: "ParticipantHandle \<Rightarrow> ParticipantKind \<Rightarrow> SipRequest list" where
  \<comment> \<open>Modelled from the spec: the body is not among the sources. Sections 3, 4.5 and
      8 have the destruction of a remote participant send BYE; nothing is sent for a
      local or a media participant.\<close>
  "endRequests partHandle (Remote destination mode) = [BYE partHandle]"
| "endRequests partHandle k = []"

definition destroyParticipant :: "ParticipantHandle \<Rightarrow> ConversationManager \<Rightarrow> ConversationManager" where
  \<comment> \<open>Modelled from the spec: the body is not among the sources. The header's comment
      has it end the connections to the participant and remove it from all
      conversations; section 5 has a call on a handle already destroyed do nothing.\<close>
  "destroyParticipant partHandle s =
     (case mParticipants s partHandle of
        None \<Rightarrow> s
      | Some p \<Rightarrow>
          s\<lparr>mConversations :=
               (\<lambda>h. map_option (\<lambda>c. c\<lparr>participants := removeAll partHandle (participants c)\<rparr>)
                      (mConversations s h)),
            mParticipants := (mParticipants s)(partHandle := None),
            sent := sent s @ endRequests partHandle (kind p)\<rparr>)"

definition leaveConversation :: "ConversationHandle \<Rightarrow> ParticipantHandle \<Rightarrow> ConversationManager \<Rightarrow> ConversationManager" where
  \<comment> \<open>Modelled from the spec: the cascading rule of section 3. The conversation leaves
      the participant's membership set; a participant left with no conversation is
      destroyed.\<close>
  "leaveConversation convHandle partHandle s =
     (case mParticipants s partHandle of
        None \<Rightarrow> s
      | Some p \<Rightarrow>
          if conversations p - {convHandle} = {} then destroyParticipant partHandle s
          else dropMember convHandle partHandle
                 (s\<lparr>mParticipants := (mParticipants s)(partHandle \<mapsto>
                       p\<lparr>conversations := conversations p - {convHandle}\<rparr>)\<rparr>))"

definition removeParticipant :: "ConversationHandle \<Rightarrow> ParticipantHandle \<Rightarrow> ConversationManager \<Rightarrow> ConversationManager" where
  \<comment> \<open>Modelled from the spec: the body is not among the sources; the header's comment
      has the participant removed from the conversation and, once in no conversation,
      destroyed.\<close>
  "removeParticipant convHandle partHandle s =
     (if partHandle \<in> membership s convHandle then leaveConversation convHandle partHandle s else s)"

definition destroyConversation :: "ConversationHandle \<Rightarrow> ConversationManager \<Rightarrow> ConversationManager" where
  \<comment> \<open>Modelled from the spec: the body is not among the sources. Section 4.5 has it
      iterate the members, destroy each member whose membership set becomes empty, and
      (section 8) leave the handle unregistered.\<close>
  "destroyConversation convHandle s =
     (case mConversations s convHandle of
        None \<Rightarrow> s
      | Some c \<Rightarrow>
          (let s1 = fold (leaveConversation convHandle) (participants c) s
           in s1\<lparr>mConversations := (mConversations s1)(convHandle := None)\<rparr>))"

definition transferMember ::
  "ConversationHandle \<Rightarrow> ConversationHandle \<Rightarrow> ParticipantHandle \<Rightarrow> ConversationManager \<Rightarrow> ConversationManager" where
  \<comment> \<open>Modelled from the spec: one step of the transfer of section 4.5. The handle
      moves from the source's member list to the destination's, and the participant's
      membership set follows.\<close>
  "transferMember sourceConvHandle destConvHandle partHandle s =
     (let s1 = addMember destConvHandle partHandle (dropMember sourceConvHandle partHandle s)
      in case mParticipants s1 partHandle of
           None \<Rightarrow> s1
         | Some p \<Rightarrow>
             s1\<lparr>mParticipants := (mParticipants s1)(partHandle \<mapsto>
                   p\<lparr>conversations := insert destConvHandle (conversations p - {sourceConvHandle})\<rparr>)\<rparr>)"

definition joinConversation :: "ConversationHandle \<Rightarrow> ConversationHandle \<Rightarrow> ConversationManager \<Rightarrow> ConversationManager" where
  \<comment> \<open>Modelled from the spec: the body is not among the sources. Section 4.5 has it
      transfer the members of the source to the destination and destroy the source
      afterwards, without sending BYE.\<close>
  "joinConversation sourceConvHandle destConvHandle s =
     (case (mConversations s sourceConvHandle, mConversations s destConvHandle) of
        (Some a, Some b) \<Rightarrow>
          (let s1 = fold (transferMember sourceConvHandle destConvHandle) (participants a) s
           in s1\<lparr>mConversations := (mConversations s1)(sourceConvHandle := None)\<rparr>)
      | _ \<Rightarrow> s)"


text \<open>
  A small state reached through the interface, used to run the operations: conversation
  1 holds a remote participant (handle 1) and the local participant (handle 2),
  conversation 2 holds the local participant only.
\<close>

definition example_cm :: ConversationManager where
  "example_cm =
     (let (c1, s1) = createConversation AutoHoldEnabled ConversationManager_new;
          (r, s2) = createRemoteParticipant c1 ''sip:bob@example.com'' ForkSelectAutomatic s1;
          (l, s3) = createLocalParticipant s2;
          (c2, s4) = createConversation AutoHoldEnabled s3
      in addParticipant c2 l (addParticipant c1 l s4))"

section \<open>Properties of the SIP stack facade\<close>

subsection \<open>The domain-alias set\<close>

lemma isMyDomain_mem: "isMyDomain s d = (d \<in> mDomains s)"
proof (cases "d \<in> mDomains s")
  case True
  then have "mDomains s \<inter> {d} = {d}" by blast
  then show ?thesis using True by (simp add: isMyDomain_def)
next
  case False
  then have "mDomains s \<inter> {d} = {}" by blast
  then show ?thesis using False by (simp add: isMyDomain_def)
qed

lemma exec_mDomains:
  assumes "exec exe c (h, s) = Some (h', s')"
  shows "mDomains s' = mDomains s \<union> {d. adds_alias d c}"
proof (cases c)
  case (AddTransport protocol port hostName nic)
  show ?thesis
  proof (cases "hostName = []")
    case True
    then show ?thesis using assms AddTransport
      by (auto simp: addTransport_def Let_def)
  next
    case False
    then show ?thesis using assms AddTransport
      by (auto simp: addTransport_def addAlias_def Let_def)
  qed
next
  case (AddAlias domain)
  then show ?thesis using assms by (auto simp: addAlias_def)
next
  case (Send msg)
  then show ?thesis using assms
    by (auto simp: send_def Let_def split: option.splits Message.splits sum.splits prod.splits)
next
  case (SendTo msg uri)
  then show ?thesis using assms
    by (auto simp: sendTo_def Let_def split: option.splits Message.splits sum.splits prod.splits)
next
  case Receive
  then show ?thesis using assms
    by (auto simp: receive_def split: option.splits sum.splits prod.splits if_splits)
next
  case Process
  then show ?thesis using assms
    by (auto simp: process_def Let_def split: prod.splits)
qed

lemma run_mDomains:
  "run exe cs (h, s) = Some (h', s') \<Longrightarrow>
   mDomains s' = mDomains s \<union> {d. \<exists>c \<in> set cs. adds_alias d c}"
proof (induction cs arbitrary: h s)
  case Nil
  then show ?case by simp
next
  case (Cons c cs)
  from Cons.prems obtain h1 s1 where
    step: "exec exe c (h, s) = Some (h1, s1)" and rest: "run exe cs (h1, s1) = Some (h', s')"
    by (auto split: option.splits)
  have "mDomains s1 = mDomains s \<union> {d. adds_alias d c}"
    using step by (rule exec_mDomains)
  moreover have "mDomains s' = mDomains s1 \<union> {d. \<exists>c \<in> set cs. adds_alias d c}"
    using rest by (rule Cons.IH)
  ultimately show ?case by auto
qed

text \<open>
  Claim C6. After any history of calls on a freshly constructed stack,
  \<^verbatim>\<open>isMyDomain(d)\<close> is true exactly when the history holds \<^verbatim>\<open>addAlias(d)\<close>, or
  \<^verbatim>\<open>addTransport\<close> with host name \<open>d\<close> and \<open>d\<close> not empty.
\<close>

theorem isMyDomain_iff_added:
  assumes "run exe cs (h, SipStack_new) = Some (h', s')"
  shows "isMyDomain s' d \<longleftrightarrow>
           (AddAlias d \<in> set cs \<or>
            (d \<noteq> [] \<and> (\<exists>protocol port nic. AddTransport protocol port d nic \<in> set cs)))"
proof -
  have "mDomains s' = {d. \<exists>c \<in> set cs. adds_alias d c}"
    using run_mDomains [OF assms] by (simp add: SipStack_new_def)
  then have "isMyDomain s' d \<longleftrightarrow> (\<exists>c \<in> set cs. adds_alias d c)"
    by (simp add: isMyDomain_mem)
  also have "\<dots> \<longleftrightarrow> (AddAlias d \<in> set cs \<or>
            (d \<noteq> [] \<and> (\<exists>protocol port nic. AddTransport protocol port d nic \<in> set cs)))"
  proof
    assume "\<exists>c \<in> set cs. adds_alias d c"
    then obtain c where c: "c \<in> set cs" "adds_alias d c" by blast
    show "AddAlias d \<in> set cs \<or>
            (d \<noteq> [] \<and> (\<exists>protocol port nic. AddTransport protocol port d nic \<in> set cs))"
    proof (cases c)
      case (AddTransport protocol port hostName nic)
      with c have "AddTransport protocol port d nic \<in> set cs" and "d \<noteq> []" by simp_all
      then show ?thesis by blast
    next
      case (AddAlias domain)
      with c have "AddAlias d \<in> set cs" by simp
      then show ?thesis by blast
    qed (use c in simp_all)
  next
    assume "AddAlias d \<in> set cs \<or>
            (d \<noteq> [] \<and> (\<exists>protocol port nic. AddTransport protocol port d nic \<in> set cs))"
    then show "\<exists>c \<in> set cs. adds_alias d c"
      by (auto intro: bexI [where x = "AddAlias d"] bexI [where x = "AddTransport _ _ d _"])
  qed
  finally show ?thesis .
qed

theorem isMyDomain_iff_added_witness:
  "run (\<lambda>x. x) [AddTransport UDP 5060 ''example.com'' [], AddTransport TCP 5060 [] [], AddAlias ''a.org'']
       (\<lparr>objs = Map.empty, brk = 0\<rparr>, SipStack_new)
     = Some (\<lparr>objs = Map.empty, brk = 0\<rparr>,
             \<lparr>mTransportSelector = [(UDP, 5060, ''example.com'', []), (TCP, 5060, [], [])],
              mDomains = {''a.org'', ''example.com''}, mStateMacFifo = [], mTUFifo = []\<rparr>)
   \<and> isMyDomain \<lparr>mTransportSelector = [(UDP, 5060, ''example.com'', []), (TCP, 5060, [], [])],
              mDomains = {''a.org'', ''example.com''}, mStateMacFifo = [], mTUFifo = []\<rparr> ''example.com''
   \<and> \<not> isMyDomain \<lparr>mTransportSelector = [(UDP, 5060, ''example.com'', []), (TCP, 5060, [], [])],
              mDomains = {''a.org'', ''example.com''}, mStateMacFifo = [], mTUFifo = []\<rparr> []"
proof -
  have r: "run (\<lambda>x. x) [AddTransport UDP 5060 ''example.com'' [], AddTransport TCP 5060 [] [], AddAlias ''a.org'']
       (\<lparr>objs = Map.empty, brk = 0\<rparr>, SipStack_new)
     = Some (\<lparr>objs = Map.empty, brk = 0\<rparr>,
             \<lparr>mTransportSelector = [(UDP, 5060, ''example.com'', []), (TCP, 5060, [], [])],
              mDomains = {''a.org'', ''example.com''}, mStateMacFifo = [], mTUFifo = []\<rparr>)"
    by (simp add: SipStack_new_def addTransport_def addAlias_def Let_def)
  show ?thesis
    using r isMyDomain_iff_added [OF r, of "''example.com''"] isMyDomain_iff_added [OF r, of "[]"]
    by simp
qed

subsection \<open>Sending\<close>

lemma new_obj_fresh: "heap_ok h \<Longrightarrow> objs h (brk h) = None"
  unfolding heap_ok_def by (metis less_irrefl)

text \<open>
  Claim C9. \<^verbatim>\<open>send(msg)\<close> leaves the caller's message as it was: the copy is stored
  at an address that held no object before, only the copy gets the from-TU mark, no
  other object changes, and the pointer to the copy is appended to the state-machine
  queue, the rest of the stack staying as it was.
\<close>

theorem send_copies_argument:
  assumes "heap_ok h" and "objs h msg = Some (IsSipMessage m)"
  shows "\<exists>h' toSend.
           send msg h s = Inr (h', s\<lparr>mStateMacFifo := mStateMacFifo s @ [toSend]\<rparr>)
         \<and> objs h toSend = None
         \<and> objs h' toSend = Some (IsSipMessage (m\<lparr>fromTU := True\<rparr>))
         \<and> objs h' msg = Some (IsSipMessage m)
         \<and> (\<forall>a. a \<noteq> toSend \<longrightarrow> objs h' a = objs h a)"
proof -
  have fresh: "objs h (brk h) = None" using assms(1) by (rule new_obj_fresh)
  with assms(2) have ne: "msg \<noteq> brk h" by auto
  let ?h' = "h\<lparr>objs := (objs h)(brk h \<mapsto> IsSipMessage (m\<lparr>fromTU := True\<rparr>)), brk := Suc (brk h)\<rparr>"
  have "send msg h s = Inr (?h', s\<lparr>mStateMacFifo := mStateMacFifo s @ [brk h]\<rparr>)"
    using assms(2) by (simp add: send_def new_obj_def setFromTU_def Fifo_add_def)
  moreover have "objs ?h' (brk h) = Some (IsSipMessage (m\<lparr>fromTU := True\<rparr>))" by simp
  moreover have "objs ?h' msg = Some (IsSipMessage m)" using ne assms(2) by simp
  moreover have "\<forall>a. a \<noteq> brk h \<longrightarrow> objs ?h' a = objs h a" by simp
  ultimately show ?thesis using fresh by blast
qed

lemma send_heap_ok:
  assumes "heap_ok h" and "send msg h s = Inr (h', s')"
  shows "heap_ok h'"
  using assms
  by (auto simp: send_def new_obj_def setFromTU_def heap_ok_def less_Suc_eq
           split: option.splits Message.splits if_splits)

theorem send_copies_argument_witness:
  "heap_ok \<lparr>objs = [0 \<mapsto> IsSipMessage \<lparr>contents = ''INVITE'', fromTU = False, target = None\<rparr>], brk = 1\<rparr>
   \<and> send 0 \<lparr>objs = [0 \<mapsto> IsSipMessage \<lparr>contents = ''INVITE'', fromTU = False, target = None\<rparr>], brk = 1\<rparr>
        SipStack_new
     = Inr (\<lparr>objs = [0 \<mapsto> IsSipMessage \<lparr>contents = ''INVITE'', fromTU = False, target = None\<rparr>,
                      1 \<mapsto> IsSipMessage \<lparr>contents = ''INVITE'', fromTU = True, target = None\<rparr>],
             brk = 2\<rparr>,
            SipStack_new\<lparr>mStateMacFifo := [1]\<rparr>)
   \<and> objs \<lparr>objs = [0 \<mapsto> IsSipMessage \<lparr>contents = ''INVITE'', fromTU = False, target = None\<rparr>,
                     1 \<mapsto> IsSipMessage \<lparr>contents = ''INVITE'', fromTU = True, target = None\<rparr>],
            brk = 2\<rparr> 0
     = Some (IsSipMessage \<lparr>contents = ''INVITE'', fromTU = False, target = None\<rparr>)"
proof -
  let ?m = "\<lparr>contents = ''INVITE'', fromTU = False, target = None\<rparr>"
  let ?h = "\<lparr>objs = [0 \<mapsto> IsSipMessage ?m], brk = 1\<rparr>"
  let ?H = "\<lparr>objs = [0 \<mapsto> IsSipMessage ?m,
                      1 \<mapsto> IsSipMessage \<lparr>contents = ''INVITE'', fromTU = True, target = None\<rparr>],
             brk = 2\<rparr>"
  have ok: "heap_ok ?h" by (simp add: heap_ok_def)
  have at: "objs ?h 0 = Some (IsSipMessage ?m)" by simp
  have run: "send 0 ?h SipStack_new = Inr (?H, SipStack_new\<lparr>mStateMacFifo := [1]\<rparr>)"
    by (simp add: send_def new_obj_def setFromTU_def Fifo_add_def SipStack_new_def)
  from send_copies_argument [OF ok at, of SipStack_new]
  obtain h' toSend where
    "send 0 ?h SipStack_new = Inr (h', SipStack_new\<lparr>mStateMacFifo := mStateMacFifo SipStack_new @ [toSend]\<rparr>)"
    and kept: "objs h' 0 = Some (IsSipMessage ?m)"
    by blast
  with run have "h' = ?H" by simp
  with kept have "objs ?H 0 = Some (IsSipMessage ?m)" by simp
  with ok run show ?thesis by blast
qed

subsection \<open>Receiving\<close>

text \<open>
  A queue whose oldest object is not a \<^verbatim>\<open>SipMessage\<close>: the queue is not empty, the
  cast gives null and the \<^verbatim>\<open>assert\<close> fails, so the oldest queued object is not
  returned.
\<close>

theorem receive_non_sip_head_counterexample:
  "mTUFifo (SipStack_new\<lparr>mTUFifo := [3, 5]\<rparr>) \<noteq> []
   \<and> receive \<lparr>objs = [3 \<mapsto> OtherMessage ''timer'',
                       5 \<mapsto> IsSipMessage \<lparr>contents = ''BYE'', fromTU = False, target = None\<rparr>], brk = 6\<rparr>
        (SipStack_new\<lparr>mTUFifo := [3, 5]\<rparr>)
     = Some (Inl AssertionFailed)
   \<and> receive \<lparr>objs = [3 \<mapsto> OtherMessage ''timer'',
                       5 \<mapsto> IsSipMessage \<lparr>contents = ''BYE'', fromTU = False, target = None\<rparr>], brk = 6\<rparr>
        (SipStack_new\<lparr>mTUFifo := [3, 5]\<rparr>)
     \<noteq> Some (Inr (Some 3, SipStack_new\<lparr>mTUFifo := [5]\<rparr>))"
  by (simp add: receive_def messageAvailable_def getNext_def dynamic_cast_SipMessage_def
        SipStack_new_def)

text \<open>
  Claim C10, amended. \<^verbatim>\<open>receive()\<close> returns a null pointer when the TU queue is
  empty, leaving the stack as it was; when the queue is not empty and its oldest object
  is a \<^verbatim>\<open>SipMessage\<close>, which the source asserts, it returns the pointer to that object
  and removes it from the queue, changing nothing else in the stack; and it always
  returns: the wait inside \<^verbatim>\<open>getNext\<close> is never reached on an empty queue.
\<close>

theorem receive_oldest_or_null:
  "(mTUFifo s = [] \<longrightarrow> receive h s = Some (Inr (None, s)))
   \<and> (\<forall>p rest m. mTUFifo s = p # rest \<and> objs h p = Some (IsSipMessage m) \<longrightarrow>
         receive h s = Some (Inr (Some p, s\<lparr>mTUFifo := rest\<rparr>)))
   \<and> receive h s \<noteq> None"
  by (auto simp: receive_def messageAvailable_def getNext_def dynamic_cast_SipMessage_def
           split: list.splits option.splits Message.splits)

lemma receive_assertion:
  "mTUFifo s = p # rest \<Longrightarrow> dynamic_cast_SipMessage h p = None \<Longrightarrow>
   receive h s = Some (Inl AssertionFailed)"
  by (simp add: receive_def messageAvailable_def getNext_def)

theorem receive_oldest_or_null_witness:
  "receive \<lparr>objs = Map.empty, brk = 0\<rparr> SipStack_new = Some (Inr (None, SipStack_new))
   \<and> receive \<lparr>objs = [3 \<mapsto> IsSipMessage \<lparr>contents = ''200 OK'', fromTU = False, target = None\<rparr>,
                       5 \<mapsto> IsSipMessage \<lparr>contents = ''BYE'', fromTU = False, target = None\<rparr>], brk = 6\<rparr>
        (SipStack_new\<lparr>mTUFifo := [3, 5]\<rparr>)
     = Some (Inr (Some 3, SipStack_new\<lparr>mTUFifo := [5]\<rparr>))"
proof -
  let ?h = "\<lparr>objs = [3 \<mapsto> IsSipMessage \<lparr>contents = ''200 OK'', fromTU = False, target = None\<rparr>,
                       5 \<mapsto> IsSipMessage \<lparr>contents = ''BYE'', fromTU = False, target = None\<rparr>], brk = 6\<rparr>"
  have e: "mTUFifo SipStack_new = []" by (simp add: SipStack_new_def)
  have n: "mTUFifo (SipStack_new\<lparr>mTUFifo := [3, 5]\<rparr>) = 3 # [5]
           \<and> objs ?h 3 = Some (IsSipMessage \<lparr>contents = ''200 OK'', fromTU = False, target = None\<rparr>)"
    by simp
  from receive_oldest_or_null [of SipStack_new "\<lparr>objs = Map.empty, brk = 0\<rparr>"] e
  have 1: "receive \<lparr>objs = Map.empty, brk = 0\<rparr> SipStack_new = Some (Inr (None, SipStack_new))"
    by blast
  from receive_oldest_or_null [of "SipStack_new\<lparr>mTUFifo := [3, 5]\<rparr>" ?h] n
  have 2: "receive ?h (SipStack_new\<lparr>mTUFifo := [3, 5]\<rparr>)
     = Some (Inr (Some 3, SipStack_new\<lparr>mTUFifo := [3, 5]\<rparr>\<lparr>mTUFifo := [5]\<rparr>))"
    by blast
  from 1 2 show ?thesis by simp
qed

section \<open>Properties of the conversation manager\<close>

subsection \<open>Destroying a conversation\<close>


lemma destroyParticipant_other:
  "p \<noteq> q \<Longrightarrow> mParticipants (destroyParticipant q s) p = mParticipants s p"
  by (simp add: destroyParticipant_def split: option.splits)

lemma dropMember_mParticipants [simp]: "mParticipants (dropMember h q s) = mParticipants s"
  by (simp add: dropMember_def split: option.splits)

lemma dropMember_sent [simp]: "sent (dropMember h q s) = sent s"
  by (simp add: dropMember_def split: option.splits)

lemma addMember_mParticipants [simp]: "mParticipants (addMember h q s) = mParticipants s"
  by (simp add: addMember_def split: option.splits)

lemma addMember_sent [simp]: "sent (addMember h q s) = sent s"
  by (simp add: addMember_def split: option.splits)

lemma about_endRequests: "r \<in> set (endRequests q k) \<Longrightarrow> about r = q"
  by (induction q k rule: endRequests.induct) auto

lemma filter_endRequests [simp]: "filter (\<lambda>r. about r = q) (endRequests q k) = endRequests q k"
  by (induction q k rule: endRequests.induct) auto

lemma leave_other:
  "p \<noteq> q \<Longrightarrow> mParticipants (leaveConversation h q s) p = mParticipants s p"
  by (simp add: leaveConversation_def destroyParticipant_other split: option.splits)

lemma leave_sent:
  "\<exists>ms. sent (leaveConversation h q s) = sent s @ ms \<and> (\<forall>r \<in> set ms. about r = q)"
  by (auto simp: leaveConversation_def destroyParticipant_def about_endRequests split: option.splits)


lemma filter_about_other: "\<forall>r \<in> set ms. about r = q \<Longrightarrow> p \<noteq> q \<Longrightarrow> filter (\<lambda>r. about r = p) ms = []"
  by (induction ms) auto






text \<open>
  A member that still belongs to another conversation survives: it stays registered,
  \<open>h\<close> leaves its membership set, and no request about it is sent.
\<close>

lemma leave_survivor:
  assumes "mParticipants s p = Some P" and "conversations P - {h} \<noteq> {}"
  shows "mParticipants (leaveConversation h p s) p = Some (P\<lparr>conversations := conversations P - {h}\<rparr>)"
    and "sent (leaveConversation h p s) = sent s"
  using assms by (simp_all add: leaveConversation_def)

lemma fold_leave_survivor:
  "mParticipants s p = Some P \<Longrightarrow> conversations P - {h} \<noteq> {} \<Longrightarrow>
   mParticipants (fold (leaveConversation h) xs s) p
     = Some (if p \<in> set xs then P\<lparr>conversations := conversations P - {h}\<rparr> else P)
   \<and> (\<exists>ms. sent (fold (leaveConversation h) xs s) = sent s @ ms \<and> filter (\<lambda>r. about r = p) ms = [])"
proof (induction xs arbitrary: s P)
  case Nil
  then show ?case by simp
next
  case (Cons q xs)
  let ?P' = "P\<lparr>conversations := conversations P - {h}\<rparr>"
  let ?s1 = "leaveConversation h q s"
  show ?case
  proof (cases "q = p")
    case True
    have reg: "mParticipants ?s1 p = Some ?P'" and out: "sent ?s1 = sent s"
      using True leave_survivor [OF Cons.prems] by simp_all
    have ne: "conversations ?P' - {h} \<noteq> {}" using Cons.prems(2) by auto
    have same: "?P'\<lparr>conversations := conversations ?P' - {h}\<rparr> = ?P'" by simp
    from Cons.IH [OF reg ne] obtain ms where
      "mParticipants (fold (leaveConversation h) xs ?s1) p = Some ?P'"
      "sent (fold (leaveConversation h) xs ?s1) = sent ?s1 @ ms"
      "filter (\<lambda>r. about r = p) ms = []"
      using same by auto
    then show ?thesis using True out by auto
  next
    case False
    have reg: "mParticipants ?s1 p = Some P" using False Cons.prems(1) by (simp add: leave_other)
    obtain m1 where m1: "sent ?s1 = sent s @ m1" "\<forall>r \<in> set m1. about r = q"
      using leave_sent by blast
    from Cons.IH [OF reg Cons.prems(2)] obtain m2 where
      m2: "mParticipants (fold (leaveConversation h) xs ?s1) p = Some (if p \<in> set xs then ?P' else P)"
          "sent (fold (leaveConversation h) xs ?s1) = sent ?s1 @ m2"
          "filter (\<lambda>r. about r = p) m2 = []"
      by blast
    have "filter (\<lambda>r. about r = p) (m1 @ m2) = []"
      using filter_about_other [OF m1(2), of p] False m2(3) by simp
    moreover have "sent (fold (leaveConversation h) (q # xs) s) = sent s @ (m1 @ m2)"
      using m1(1) m2(2) by simp
    moreover have "mParticipants (fold (leaveConversation h) (q # xs) s) p
        = Some (if p \<in> set (q # xs) then ?P' else P)"
      using m2(1) False by simp
    ultimately show ?thesis by blast
  qed
qed

lemma destroyConversation_survivor:
  assumes "mConversations s h = Some c" and "p \<in> set (participants c)"
    and "mParticipants s p = Some P" and "conversations P - {h} \<noteq> {}"
  shows "mParticipants (destroyConversation h s) p = Some (P\<lparr>conversations := conversations P - {h}\<rparr>)
       \<and> (\<exists>ms. sent (destroyConversation h s) = sent s @ ms \<and> filter (\<lambda>r. about r = p) ms = [])"
proof -
  let ?s1 = "fold (leaveConversation h) (participants c) s"
  have d: "destroyConversation h s = ?s1\<lparr>mConversations := (mConversations ?s1)(h := None)\<rparr>"
    using assms(1) by (simp add: destroyConversation_def Let_def)
  from fold_leave_survivor [OF assms(3,4), of "participants c"] assms(2)
  show ?thesis by (simp add: d)
qed

lemma example_cm_eq:
  "example_cm =
     \<lparr>mConversations = [1 \<mapsto> \<lparr>participants = [1, 2], autoHoldMode = AutoHoldEnabled\<rparr>,
                        2 \<mapsto> \<lparr>participants = [2], autoHoldMode = AutoHoldEnabled\<rparr>],
      mCurrentConversationHandle = 3,
      mParticipants = [1 \<mapsto> \<lparr>kind = Remote ''sip:bob@example.com'' ForkSelectAutomatic,
                               conversations = {1}\<rparr>,
                       2 \<mapsto> \<lparr>kind = Local, conversations = {1, 2}\<rparr>],
      mCurrentParticipantHandle = 3,
      sent = [INVITE 1 ''sip:bob@example.com'']\<rparr>"
  by (simp add: example_cm_def ConversationManager_new_def createConversation_def
      getNewConversationHandle_def getNewParticipantHandle_def createRemoteParticipant_def
      createLocalParticipant_def addParticipant_def addMember_def fun_upd_twist insert_commute)


subsection \<open>Joining two conversations\<close>

lemma transfer_sent [simp]: "sent (transferMember a b p s) = sent s"
  by (simp add: transferMember_def Let_def split: option.splits)

lemma transfer_registered:
  "(mParticipants (transferMember a b p s) q = None) = (mParticipants s q = None)"
  by (simp add: transferMember_def Let_def split: option.splits)

lemma transfer_dest:
  assumes "mConversations s b = Some B" and "a \<noteq> b"
  shows "\<exists>B'. mConversations (transferMember a b p s) b = Some B'
            \<and> set (participants B') = insert p (set (participants B))"
  using assms
  by (auto simp: transferMember_def Let_def addMember_def dropMember_def split: option.splits)

lemma fold_transfer_sent [simp]: "sent (fold (transferMember a b) xs s) = sent s"
  by (induction xs arbitrary: s) simp_all

lemma fold_transfer_registered:
  "(mParticipants (fold (transferMember a b) xs s) q = None) = (mParticipants s q = None)"
  by (induction xs arbitrary: s) (simp_all add: transfer_registered)

lemma fold_transfer_dest:
  "mConversations s b = Some B \<Longrightarrow> a \<noteq> b \<Longrightarrow>
   \<exists>B'. mConversations (fold (transferMember a b) xs s) b = Some B'
       \<and> set (participants B') = set (participants B) \<union> set xs"
proof (induction xs arbitrary: s B)
  case Nil
  then show ?case by simp
next
  case (Cons p xs)
  from transfer_dest [OF Cons.prems] obtain B1 where
    B1: "mConversations (transferMember a b p s) b = Some B1"
        "set (participants B1) = insert p (set (participants B))"
    by blast
  from Cons.IH [OF B1(1) Cons.prems(2)] obtain B' where
    "mConversations (fold (transferMember a b) xs (transferMember a b p s)) b = Some B'"
    "set (participants B') = set (participants B1) \<union> set xs"
    by blast
  then show ?case using B1(2) by auto
qed

text \<open>
  Claim C5, amended. For two registered conversation handles \<open>a\<close> and \<open>b\<close> that
  differ, \<^verbatim>\<open>joinConversation(a, b)\<close> leaves \<open>b\<close> registered with the union of the
  two former memberships as its members, leaves \<open>a\<close> unregistered (the query for it
  answers NotFound), sends no BYE, and destroys no participant.
\<close>

theorem joinConversation_distinct_union:
  assumes "mConversations s a = Some A" and "mConversations s b = Some B" and "a \<noteq> b"
  shows "membership (joinConversation a b s) b = membership s a \<union> membership s b
       \<and> getConversation (joinConversation a b s) b \<noteq> Inl NotFound
       \<and> getConversation (joinConversation a b s) a = Inl NotFound
       \<and> (\<exists>ms. sent (joinConversation a b s) = sent s @ ms \<and> (\<forall>p. BYE p \<notin> set ms))
       \<and> (\<forall>p. mParticipants s p \<noteq> None \<longrightarrow> mParticipants (joinConversation a b s) p \<noteq> None)"
proof -
  let ?s1 = "fold (transferMember a b) (participants A) s"
  have j: "joinConversation a b s = ?s1\<lparr>mConversations := (mConversations ?s1)(a := None)\<rparr>"
    using assms(1,2) by (simp add: joinConversation_def Let_def)
  from fold_transfer_dest [OF assms(2,3), of "participants A"] obtain B' where
    B': "mConversations ?s1 b = Some B'" "set (participants B') = set (participants B) \<union> set (participants A)"
    by blast
  have b: "mConversations (joinConversation a b s) b = Some B'"
    using B'(1) assms(3) by (simp add: j)
  have "membership (joinConversation a b s) b = membership s a \<union> membership s b"
    using b B'(2) assms(1,2) by (auto simp: membership_def getConversation_def)
  moreover have "getConversation (joinConversation a b s) b \<noteq> Inl NotFound"
    using b by (simp add: getConversation_def)
  moreover have "getConversation (joinConversation a b s) a = Inl NotFound"
    by (simp add: j getConversation_def)
  moreover have "sent (joinConversation a b s) = sent s @ []" by (simp add: j)
  then have "\<exists>ms. sent (joinConversation a b s) = sent s @ ms \<and> (\<forall>p. BYE p \<notin> set ms)"
    by (intro exI [where x = "[]"]) simp
  moreover have "\<forall>p. mParticipants s p \<noteq> None \<longrightarrow> mParticipants (joinConversation a b s) p \<noteq> None"
    by (simp add: j fold_transfer_registered)
  ultimately show ?thesis by blast
qed


theorem joinConversation_distinct_union_witness:
  "mConversations example_cm 1 = Some \<lparr>participants = [1, 2], autoHoldMode = AutoHoldEnabled\<rparr>
   \<and> mConversations example_cm 2 = Some \<lparr>participants = [2], autoHoldMode = AutoHoldEnabled\<rparr>
   \<and> membership (joinConversation 1 2 example_cm) 2 = {1, 2}
   \<and> getConversation (joinConversation 1 2 example_cm) 1 = Inl NotFound
   \<and> sent (joinConversation 1 2 example_cm) = sent example_cm
   \<and> mParticipants (joinConversation 1 2 example_cm) 1
       = Some \<lparr>kind = Remote ''sip:bob@example.com'' ForkSelectAutomatic, conversations = {2}\<rparr>"
proof -
  have a: "mConversations example_cm 1 = Some \<lparr>participants = [1, 2], autoHoldMode = AutoHoldEnabled\<rparr>"
    and b: "mConversations example_cm 2 = Some \<lparr>participants = [2], autoHoldMode = AutoHoldEnabled\<rparr>"
    by (simp_all add: example_cm_eq)
  have ne: "(1::ConversationHandle) \<noteq> 2" by simp
  have ms: "membership example_cm 1 \<union> membership example_cm 2 = {1, 2}"
    using a b by (auto simp: membership_def getConversation_def)
  from joinConversation_distinct_union [OF a b ne] ms
  have "membership (joinConversation 1 2 example_cm) 2 = {1, 2}"
    and "getConversation (joinConversation 1 2 example_cm) 1 = Inl NotFound"
    by simp_all
  moreover have "sent (joinConversation 1 2 example_cm) = sent example_cm"
    using a b by (simp add: joinConversation_def Let_def)
  moreover have "mParticipants (joinConversation 1 2 example_cm) 1
       = Some \<lparr>kind = Remote ''sip:bob@example.com'' ForkSelectAutomatic, conversations = {2}\<rparr>"
    by (simp add: example_cm_eq joinConversation_def transferMember_def addMember_def dropMember_def)
  ultimately show ?thesis using a b by simp
qed

text \<open>
  Joining a conversation with itself. The handle is registered and has a member before
  the call. Afterwards it cannot both hold the union of the former memberships and be
  unregistered; here the source has been destroyed, so the handle is unregistered and
  its membership is empty.
\<close>

theorem joinConversation_same_handle_counterexample:
  "getConversation example_cm 2 \<noteq> Inl NotFound
   \<and> membership example_cm 2 \<union> membership example_cm 2 = {2}
   \<and> \<not> (membership (joinConversation 2 2 example_cm) 2 = membership example_cm 2 \<union> membership example_cm 2
          \<and> getConversation (joinConversation 2 2 example_cm) 2 = Inl NotFound)
   \<and> getConversation (joinConversation 2 2 example_cm) 2 = Inl NotFound
   \<and> membership (joinConversation 2 2 example_cm) 2 = {}"
  by (simp add: example_cm_eq joinConversation_def transferMember_def addMember_def dropMember_def
        membership_def getConversation_def)

end
